theory Spec2Isabelle
  imports Complex_Main
begin

section \<open>Numbers and strings of the service\<close>

text \<open>
  The service computes with Python floats. They are embedded as exact reals: every
  arithmetic operation is the mathematical one, a decimal numeral denotes the decimal
  itself and not the nearest double, and rounding error, overflow, infinities and NaN
  are not covered. The only rounding is the explicit \<^verbatim>\<open>round(x, 3)\<close> of the source,
  which rounds to the nearest multiple of \<open>10 ^ - 3\<close>, a tie going to the even
  neighbour. Within one unit of the last decimal the model and the source may differ,
  so the properties below are those that do not depend on it: ranges, order, the
  shape of the results, and evaluations on values that doubles represent exactly.

  A string is a list of characters, one \<open>char\<close> for each character of the Python
  string, so \<open>length\<close> is Python's \<^verbatim>\<open>len\<close>; text with characters beyond the 256 that
  \<open>char\<close> offers is outside the model.
\<close>

definition round_half_even :: "real \<Rightarrow> int" where
  "round_half_even x =
     (let f = \<lfloor>x\<rfloor>; d = x - of_int f
      in if d < 1 / 2 then f else if 1 / 2 < d then f + 1 else if even f then f else f + 1)"

definition py_round :: "real \<Rightarrow> nat \<Rightarrow> real" where
  "py_round x ndigits = of_int (round_half_even (x * 10 ^ ndigits)) / 10 ^ ndigits"

text \<open>\<^verbatim>\<open>str(n)\<close> of a non-negative integer, as the f-strings of the source print it.\<close>

definition digit_char :: "nat \<Rightarrow> char" where
  "digit_char d = ''0123456789'' ! d"

fun str_of_nat :: "nat \<Rightarrow> string" where
  "str_of_nat n = (if n < 10 then [digit_char n] else str_of_nat (n div 10) @ [digit_char (n mod 10)])"

declare str_of_nat.simps [simp del]

definition str_of_int :: "int \<Rightarrow> string" where
  "str_of_int i = (if i < 0 then CHR ''-'' # str_of_nat (nat (- i)) else str_of_nat (nat i))"

text \<open>\<^verbatim>\<open>sep.join(xs)\<close>.\<close>

fun join :: "string \<Rightarrow> string list \<Rightarrow> string" where
  "join sep [] = []"
| "join sep [x] = x"
| "join sep (x # y # ys) = x @ sep @ join sep (y # ys)"

section \<open>Passages\<close>

text \<open>
  A retrieved snippet is a Python dict read only through \<^verbatim>\<open>snippet.get(key, default)\<close>.
  The record holds the keys the service reads, each one possibly absent; the values are
  strings, and integers for the character range, as the engine and the tests supply them.
\<close>

record snippet =
  sn_id :: "string option"
  sn_source_id :: "string option"
  sn_title :: "string option"
  sn_url :: "string option"
  sn_date :: "string option"
  sn_content :: "string option"
  sn_start :: "int option"
  sn_end :: "int option"

text \<open>\<^verbatim>\<open>d.get(key, default)\<close> on an optional field.\<close>

definition get_or :: "'a option \<Rightarrow> 'a \<Rightarrow> 'a" where
  "get_or v d = (case v of None \<Rightarrow> d | Some x \<Rightarrow> x)"

section \<open>Evidence trail\<close>

datatype error = ValidationError | ZeroDivisionError

record evidence_ref =
  er_id :: string
  er_source_id :: string
  er_doc_url :: "string option"
  er_title :: "string option"
  er_published_at :: "string option"
  er_span :: "string option"
  er_similarity :: real
  er_weight :: real
  er_recency_signal :: "real option"

text \<open>
  Constructing an \<^verbatim>\<open>EvidenceRef\<close> validates the declared field ranges
  (\<^verbatim>\<open>Field(0.0, ge=0.0, le=1.0)\<close> on similarity and weight,
  \<^verbatim>\<open>Field(None, ge=0.0, le=1.0)\<close> on the recency signal) and raises when one fails.
\<close>

definition in_unit :: "real \<Rightarrow> bool" where
  "in_unit x = (0 \<le> x \<and> x \<le> 1)"

definition EvidenceRef ::
  "string \<Rightarrow> string \<Rightarrow> string option \<Rightarrow> string option \<Rightarrow> string option \<Rightarrow> string option \<Rightarrow>
   real \<Rightarrow> real \<Rightarrow> real option \<Rightarrow> error + evidence_ref" where
  "EvidenceRef i source_id doc_url title published_at span_text similarity weight recency_signal =
     (if in_unit similarity \<and> in_unit weight \<and>
         (case recency_signal of None \<Rightarrow> True | Some r \<Rightarrow> in_unit r)
      then Inr \<lparr>er_id = i, er_source_id = source_id, er_doc_url = doc_url, er_title = title,
                er_published_at = published_at, er_span = span_text, er_similarity = similarity,
                er_weight = weight, er_recency_signal = recency_signal\<rparr>
      else Inl ValidationError)"

text \<open>The weight of the passage at rank \<open>i\<close> of \<open>n\<close>, before rounding.\<close>

definition rank_weight :: "nat \<Rightarrow> nat \<Rightarrow> real \<Rightarrow> real" where
  "rank_weight n i score = max 0.1 ((real n - real i) / real n) * min 1.0 score"

definition span_of :: "snippet \<Rightarrow> string" where
  "span_of snippet =
     ''chars_'' @ str_of_int (get_or (sn_start snippet) 0) @ ''_'' @
     str_of_int (get_or (sn_end snippet) (int (length (get_or (sn_content snippet) []))))"

text \<open>
  One pass of the loop body of \<^verbatim>\<open>build_evidence_trail\<close>: the weight, then the
  \<^verbatim>\<open>EvidenceRef\<close> for the snippet at index \<open>i\<close>; \<open>n\<close> is \<^verbatim>\<open>len(scores)\<close>, by
  which the source divides.
\<close>

definition evidence_ref_at :: "nat \<Rightarrow> nat \<Rightarrow> snippet \<Rightarrow> real \<Rightarrow> error + evidence_ref" where
  "evidence_ref_at n i snippet score =
     (if n = 0 then Inl ZeroDivisionError
      else
        let weight = rank_weight n i score
        in EvidenceRef (''passage_'' @ str_of_nat i)
             (get_or (sn_id snippet) (''doc_'' @ str_of_nat i))
             (sn_url snippet)
             (Some (get_or (sn_title snippet) ''Unknown Source''))
             (sn_date snippet)
             (Some (span_of snippet))
             (min 1.0 (max 0.0 score))
             (py_round weight 3)
             None)"

text \<open>
  The loop over \<^verbatim>\<open>enumerate(zip(retrieved_snippets, scores))\<close>: \<open>i\<close> is the running
  index, the last argument the trail built so far. An exception leaves the loop.
\<close>

fun evidence_loop ::
  "nat \<Rightarrow> nat \<Rightarrow> (snippet \<times> real) list \<Rightarrow> evidence_ref list \<Rightarrow> error + evidence_ref list" where
  "evidence_loop n i [] evidence_trail = Inr evidence_trail"
| "evidence_loop n i ((snippet, score) # rest) evidence_trail =
     (case evidence_ref_at n i snippet score of
        Inl e \<Rightarrow> Inl e
      | Inr evidence_ref \<Rightarrow> evidence_loop n (i + 1) rest (evidence_trail @ [evidence_ref]))"

definition build_evidence_trail :: "snippet list \<Rightarrow> real list \<Rightarrow> error + evidence_ref list" where
  "build_evidence_trail retrieved_snippets scores =
     evidence_loop (length scores) 0 (zip retrieved_snippets scores) []"

section \<open>Ablation\<close>

definition snippet_id_of :: "snippet \<Rightarrow> string" where
  "snippet_id_of snippet = get_or (sn_id snippet) []"

definition source_id_of :: "snippet \<Rightarrow> string" where
  "source_id_of snippet = get_or (sn_source_id snippet) (get_or (sn_title snippet) [])"

definition passage_id_of :: "nat \<Rightarrow> string" where
  "passage_id_of kept = ''passage_'' @ str_of_nat kept"

definition should_remove :: "string list \<Rightarrow> snippet \<Rightarrow> nat \<Rightarrow> bool" where
  "should_remove ablate snippet kept =
     list_ex (\<lambda>ablate_id. ablate_id \<in> set [snippet_id_of snippet, source_id_of snippet,
                                              passage_id_of kept]) ablate"

text \<open>
  The loop of \<^verbatim>\<open>apply_ablation\<close> over \<^verbatim>\<open>zip(retrieved_snippets, scores)\<close>; the state is
  \<^verbatim>\<open>(filtered_snippets, filtered_scores, removed_count)\<close>.
\<close>

fun ablation_loop ::
  "string list \<Rightarrow> (snippet \<times> real) list \<Rightarrow> snippet list \<times> real list \<times> nat \<Rightarrow>
   snippet list \<times> real list \<times> nat" where
  "ablation_loop ablate [] st = st"
| "ablation_loop ablate ((snippet, score) # rest) (filtered_snippets, filtered_scores, removed_count) =
     (if \<not> should_remove ablate snippet (length filtered_snippets)
      then ablation_loop ablate rest
             (filtered_snippets @ [snippet], filtered_scores @ [score], removed_count)
      else ablation_loop ablate rest (filtered_snippets, filtered_scores, removed_count + 1))"

definition counterfactual_note_of :: "nat \<Rightarrow> string list \<Rightarrow> string" where
  "counterfactual_note_of removed_count ablate =
     ''Excluded '' @ str_of_nat removed_count @ '' passages based on ablation criteria: '' @
     join '', '' ablate"

text \<open>
  The third component of the result is a Python value that the caller stores in an
  \<^verbatim>\<open>Optional[str]\<close>: \<open>None\<close> is Python's \<^verbatim>\<open>None\<close>, \<open>Some s\<close> the string \<open>s\<close>.
\<close>

definition apply_ablation ::
  "snippet list \<Rightarrow> real list \<Rightarrow> string list \<Rightarrow> snippet list \<times> real list \<times> string option" where
  "apply_ablation retrieved_snippets scores ablate =
     (if ablate = [] then (retrieved_snippets, scores, Some [])
      else
        case ablation_loop ablate (zip retrieved_snippets scores) ([], [], 0) of
          (filtered_snippets, filtered_scores, removed_count) \<Rightarrow>
            (filtered_snippets, filtered_scores,
             Some (counterfactual_note_of removed_count ablate)))"

section \<open>Answer confidence\<close>

definition calculate_answer_confidence :: "snippet list \<Rightarrow> real list \<Rightarrow> real" where
  "calculate_answer_confidence retrieved_snippets scores =
     (if scores = [] \<or> length scores < 2 then 0.5
      else
        let top_scores = take 5 (sort_key uminus scores);
            score_mean = sum_list top_scores / real (length top_scores);
            score_variance =
              sum_list (map (\<lambda>s. (s - score_mean) ^ 2) top_scores) / real (length top_scores);
            base_confidence = min 0.95 (max 0.2 score_mean);
            variance_penalty = min 0.3 (score_variance * 2);
            confidence = max 0.2 (base_confidence - variance_penalty)
        in py_round confidence 3)"

section \<open>The query endpoint\<close>

text \<open>
  What \<^verbatim>\<open>medrag_instance.answer(...)\<close> does, seen from \<^verbatim>\<open>query_medrag\<close>: it returns a
  tuple of three, a dict read with \<^verbatim>\<open>get\<close> on the keys answer, snippets and scores,
  or something else, of which the source uses the truth value and \<^verbatim>\<open>str(result)\<close>
  only; or it raises an exception (a subclass of \<^verbatim>\<open>Exception\<close>) with a message.
\<close>

datatype engine_result =
    Triple string "snippet list" "real list"
  | Mapping "string option" "snippet list option" "real list option"
  | Other bool string
  | Raised string

record engine =
  eng_llm_name :: string
  eng_retriever_name :: string
  eng_corpus_name :: string
  eng_answer :: "string \<Rightarrow> (string \<times> string) list option \<Rightarrow> int \<Rightarrow> engine_result"

text \<open>A validated \<^verbatim>\<open>QueryRequest\<close>; the query has passed the redaction.\<close>

record query_request =
  rq_query :: string
  rq_options :: "(string \<times> string) list option"
  rq_k :: int
  rq_temperature :: real
  rq_ablate :: "string list option"

text \<open>
  The wall-clock durations that the source measures with \<^verbatim>\<open>time.time()\<close>, in whole
  milliseconds; they are inputs of the model.
\<close>

record timings =
  tm_retrieve :: int
  tm_generate :: int
  tm_total :: int

record context_item =
  cx_title :: string
  cx_content :: string
  cx_source :: string

text \<open>
  The one warning of the source, the fixed text \<^verbatim>\<open>ProofPath(TM) evidence tracking active\<close>
  written with the trade mark sign, which is no character of the model.
\<close>

datatype warning = EvidenceTrackingActive

record proofpath_meta =
  pm_retriever_name :: string
  pm_retriever_corpus :: string
  pm_retriever_k :: int
  pm_generator_model :: string
  pm_generator_temperature :: real
  pm_latency_retrieve :: int
  pm_latency_generate :: int
  pm_tokens_prompt :: nat
  pm_tokens_context :: nat
  pm_tokens_output :: nat
  pm_warnings :: "warning list"

record query_response =
  qr_answer :: string
  qr_contexts :: "context_item list"
  qr_citations :: "string list"
  qr_latency_ms :: int
  qr_model_info :: string
  qr_evidence_trail :: "evidence_ref list option"
  qr_answer_confidence :: "real option"
  qr_proofpath_meta :: "proofpath_meta option"
  qr_counterfactual_note :: "string option"

text \<open>
  The two \<^verbatim>\<open>HTTPException\<close>s of \<^verbatim>\<open>query_medrag\<close>: status 503 when the engine is
  not initialised, status 500 when the processing raises.
\<close>

datatype http_error = ServiceNotInitialized | QueryProcessingFailed error

text \<open>
  \<^verbatim>\<open>len(text.split())\<close>: the number of maximal runs of characters that are not white
  space; among the characters of the model, Python's white space is the ASCII one with
  the four separators \<open>0x1C\<close> to \<open>0x1F\<close>, the next-line character \<open>0x85\<close> and the
  no-break space \<open>0xA0\<close>.
\<close>

definition is_space :: "char \<Rightarrow> bool" where
  "is_space c = (c \<in> set [CHR '' '', CHR 0x09, CHR 0x0A, CHR 0x0B, CHR 0x0C, CHR 0x0D,
                           CHR 0x1C, CHR 0x1D, CHR 0x1E, CHR 0x1F, CHR 0x85, CHR 0xA0])"

fun count_words :: "bool \<Rightarrow> string \<Rightarrow> nat" where
  "count_words in_word [] = 0"
| "count_words in_word (c # cs) =
     (if is_space c then count_words False cs
      else (if in_word then 0 else 1) + count_words True cs)"

definition split_len :: "string \<Rightarrow> nat" where
  "split_len text = count_words False text"

text \<open>The mock data of the \<^verbatim>\<open>except\<close> branch around the engine call.\<close>

definition fallback_answer :: "string \<Rightarrow> string" where
  "fallback_answer query =
     ''Based on current medical guidelines, regarding '' @ [CHR 0x27] @ query @ [CHR 0x27] @
     '': This is a mock response for testing purposes. In a real deployment, MedRAG would provide evidence-based medical information.''"

definition fallback_snippets :: "string \<Rightarrow> snippet list" where
  "fallback_snippets query =
     [\<lparr>sn_id = Some ''test_textbook_001'', sn_source_id = None,
       sn_title = Some ''Pediatric Emergency Guidelines'', sn_url = None, sn_date = None,
       sn_content = Some (''Mock medical information related to: '' @ query),
       sn_start = Some 0, sn_end = Some 100\<rparr>,
      \<lparr>sn_id = Some ''test_manual_002'', sn_source_id = None,
       sn_title = Some ''Clinical Reference Manual'', sn_url = None, sn_date = None,
       sn_content = Some (''Additional context for: '' @ query),
       sn_start = Some 0, sn_end = Some 120\<rparr>]"

definition fallback_scores :: "real list" where
  "fallback_scores = [0.92, 0.88]"

text \<open>The inner \<^verbatim>\<open>try\<close>: the engine's result brought to answer, snippets and scores.\<close>

definition normalize_result :: "string \<Rightarrow> engine_result \<Rightarrow> string \<times> snippet list \<times> real list" where
  "normalize_result query result =
     (case result of
        Triple answer retrieved_snippets scores \<Rightarrow> (answer, retrieved_snippets, scores)
      | Mapping answer retrieved_snippets scores \<Rightarrow>
          (get_or answer [], get_or retrieved_snippets [], get_or scores [])
      | Other truthy text \<Rightarrow> (if truthy then text else ''Unable to generate answer'', [], [])
      | Raised e \<Rightarrow> (fallback_answer query, fallback_snippets query, fallback_scores))"

definition context_of :: "snippet \<Rightarrow> context_item" where
  "context_of snippet =
     \<lparr>cx_title = get_or (sn_title snippet) ''Unknown'',
      cx_content = get_or (sn_content snippet) [],
      cx_source = get_or (sn_id snippet) ''unknown''\<rparr>"

definition citation_of :: "snippet \<Rightarrow> string" where
  "citation_of snippet =
     get_or (sn_title snippet) ''Unknown Source'' @ '' - '' @ get_or (sn_id snippet) ''no_id''"

text \<open>\<^verbatim>\<open>request.ablate\<close> as a condition: the list is present and not empty.\<close>

definition ablate_given :: "query_request \<Rightarrow> bool" where
  "ablate_given request = (case rq_ablate request of None \<Rightarrow> False | Some ids \<Rightarrow> ids \<noteq> [])"


definition query_medrag ::
  "bool \<Rightarrow> engine option \<Rightarrow> timings \<Rightarrow> query_request \<Rightarrow> http_error + query_response" where
  "query_medrag PROOFPATH_ENABLED medrag_instance timing request =
     (case medrag_instance of
        None \<Rightarrow> Inl ServiceNotInitialized
      | Some medrag \<Rightarrow>
          (case normalize_result (rq_query request)
                  (eng_answer medrag (rq_query request) (rq_options request) (rq_k request)) of
             (answer, engine_snippets, engine_scores) \<Rightarrow>
               (case (if ablate_given request \<and> PROOFPATH_ENABLED
                      then apply_ablation engine_snippets engine_scores (get_or (rq_ablate request) [])
                      else (engine_snippets, engine_scores, None)) of
                  (retrieved_snippets, scores, counterfactual_note) \<Rightarrow>
                    (let contexts = map context_of retrieved_snippets;
                         citations = map citation_of (take 5 retrieved_snippets);
                         response =
                           \<lparr>qr_answer = answer, qr_contexts = contexts, qr_citations = citations,
                            qr_latency_ms = tm_total timing, qr_model_info = eng_llm_name medrag,
                            qr_evidence_trail = None, qr_answer_confidence = None,
                            qr_proofpath_meta = None,
                            qr_counterfactual_note = counterfactual_note\<rparr>
                     in if PROOFPATH_ENABLED
                        then
                          (case build_evidence_trail retrieved_snippets scores of
                             Inl e \<Rightarrow> Inl (QueryProcessingFailed e)
                           | Inr evidence_trail \<Rightarrow>
                               Inr (response
                                 \<lparr>qr_evidence_trail := Some evidence_trail,
                                  qr_answer_confidence :=
                                    Some (calculate_answer_confidence retrieved_snippets scores),
                                  qr_proofpath_meta := Some
                                    \<lparr>pm_retriever_name = eng_retriever_name medrag,
                                     pm_retriever_corpus = eng_corpus_name medrag,
                                     pm_retriever_k = rq_k request,
                                     pm_generator_model = eng_llm_name medrag,
                                     pm_generator_temperature = rq_temperature request,
                                     pm_latency_retrieve = tm_retrieve timing,
                                     pm_latency_generate = tm_generate timing,
                                     pm_tokens_prompt = 0,
                                     pm_tokens_context =
                                       sum_list (map (\<lambda>s. split_len (get_or (sn_content s) []))
                                                  retrieved_snippets),
                                     pm_tokens_output = split_len answer,
                                     pm_warnings =
                                       (if ablate_given request then [EvidenceTrackingActive] else [])\<rparr>\<rparr>))
                        else Inr response))))"

text \<open>
  The failing engine of \<^verbatim>\<open>test_query_service_error\<close> and a request with the exclusion
  list of \<^verbatim>\<open>test_ablate_endpoint\<close>.
\<close>

definition failing_engine :: engine where
  "failing_engine =
     \<lparr>eng_llm_name = ''test-model'', eng_retriever_name = ''MedCPT'',
      eng_corpus_name = ''Textbooks'',
      eng_answer = (\<lambda>question options k. Raised ''MedRAG service error'')\<rparr>"

definition ablating_request :: query_request where
  "ablating_request =
     \<lparr>rq_query = ''Test query'', rq_options = None, rq_k = 32, rq_temperature = 0,
      rq_ablate = Some [''passage_0'', ''doc_example'']\<rparr>"

definition plain_request :: query_request where
  "plain_request =
     \<lparr>rq_query = ''Test query'', rq_options = None, rq_k = 32, rq_temperature = 0,
      rq_ablate = None\<rparr>"

definition no_time :: timings where
  "no_time = \<lparr>tm_retrieve = 0, tm_generate = 0, tm_total = 0\<rparr>"

section \<open>Reading the ablation result\<close>

text \<open>
  \<open>kept_before idxs i\<close> is the number of kept positions below \<open>i\<close>, when \<open>idxs\<close>
  lists the positions that \<^verbatim>\<open>apply_ablation\<close> keeps.
\<close>

definition kept_before :: "nat list \<Rightarrow> nat \<Rightarrow> nat" where
  "kept_before idxs i = length (filter (\<lambda>j. j < i) idxs)"

text \<open>
  The spec's reading of the three identifier spaces, for comparison with the source: the
  passage's own id and source id where it has them, and the positional id.
\<close>

definition spec_identifiers :: "snippet \<Rightarrow> nat \<Rightarrow> string list" where
  "spec_identifiers snippet kept =
     (case sn_id snippet of None \<Rightarrow> [] | Some i \<Rightarrow> [i]) @
     (case sn_source_id snippet of None \<Rightarrow> [] | Some s \<Rightarrow> [s]) @
     [passage_id_of kept]"

section \<open>Passages of the test suite\<close>

text \<open>
  The passages of \<^verbatim>\<open>tests/test_main.py\<close> and of the spec's scenarios: one with an id
  only, one with an id, a title and a content.
\<close>

definition doc :: "string \<Rightarrow> snippet" where
  "doc i = \<lparr>sn_id = Some i, sn_source_id = None, sn_title = None, sn_url = None,
            sn_date = None, sn_content = None, sn_start = None, sn_end = None\<rparr>"

definition titled_doc :: "string \<Rightarrow> string \<Rightarrow> string \<Rightarrow> snippet" where
  "titled_doc i title content =
     \<lparr>sn_id = Some i, sn_source_id = None, sn_title = Some title, sn_url = None,
      sn_date = None, sn_content = Some content, sn_start = None, sn_end = None\<rparr>"

section \<open>Reading the evidence trail\<close>

text \<open>
  The rounded weight of the passage at rank \<open>i\<close> of \<open>n\<close> with the given similarity, as
  the spec writes it, and the \<^verbatim>\<open>EvidenceRef\<close> that the loop body builds when the
  validation accepts it.
\<close>

definition weight_at :: "nat \<Rightarrow> nat \<Rightarrow> real \<Rightarrow> real" where
  "weight_at n i similarity = py_round (max 0.1 ((real n - real i) / real n) * min 1.0 similarity) 3"

definition ref_record :: "nat \<Rightarrow> nat \<Rightarrow> snippet \<Rightarrow> real \<Rightarrow> evidence_ref" where
  "ref_record n i snippet score =
     \<lparr>er_id = ''passage_'' @ str_of_nat i,
      er_source_id = get_or (sn_id snippet) (''doc_'' @ str_of_nat i),
      er_doc_url = sn_url snippet,
      er_title = Some (get_or (sn_title snippet) ''Unknown Source''),
      er_published_at = sn_date snippet,
      er_span = Some (span_of snippet),
      er_similarity = min 1 (max 0 score),
      er_weight = weight_at n i score,
      er_recency_signal = None\<rparr>"

section \<open>Properties of rounding\<close>

lemma round_half_even_of_int [simp]: "round_half_even (of_int k) = k"
  by (simp add: round_half_even_def)

lemma round_half_even_lower: "\<lfloor>x\<rfloor> \<le> round_half_even x"
  by (simp add: round_half_even_def Let_def)

lemma round_half_even_upper: "round_half_even x \<le> \<lfloor>x\<rfloor> + 1"
  by (simp add: round_half_even_def Let_def)

lemma round_half_even_mono:
  assumes "x \<le> y"
  shows "round_half_even x \<le> round_half_even y"
proof (cases "\<lfloor>x\<rfloor> = \<lfloor>y\<rfloor>")
  case True
  with assms show ?thesis
    by (auto simp: round_half_even_def Let_def)
next
  case False
  moreover from assms have "\<lfloor>x\<rfloor> \<le> \<lfloor>y\<rfloor>"
    by (rule floor_mono)
  ultimately have "\<lfloor>x\<rfloor> + 1 \<le> \<lfloor>y\<rfloor>"
    by simp
  with round_half_even_upper [of x] round_half_even_lower [of y] show ?thesis
    by linarith
qed

lemma py_round_mono: "x \<le> y \<Longrightarrow> py_round x n \<le> py_round y n"
  unfolding py_round_def
  by (intro divide_right_mono of_int_le_iff [THEN iffD2] round_half_even_mono
      mult_right_mono) simp_all

lemma py_round_of_int: "py_round (of_int k / 10 ^ n) n = of_int k / 10 ^ n"
  by (simp add: py_round_def)

lemma py_round_fifth [simp]: "py_round (1 / 5) 3 = 1 / 5"
  using py_round_of_int [of 200 3] by simp

lemma py_round_ceiling [simp]: "py_round (19 / 20) 3 = 19 / 20"
  using py_round_of_int [of 950 3] by simp

section \<open>Properties of the confidence estimate\<close>

lemma squares_sum_nonneg: "0 \<le> sum_list (map (\<lambda>s. (s - m) ^ 2) (xs :: real list))"
  by (rule sum_list_nonneg) auto

text \<open>
  C10: the confidence depends on the scores only; two calls with the same scores and
  any two passage lists return the same value.
\<close>

theorem confidence_ignores_snippets:
  "calculate_answer_confidence snippets1 scores = calculate_answer_confidence snippets2 scores"
  by (simp add: calculate_answer_confidence_def)

text \<open>
  C4: with at least two scores the confidence lies in the closed interval from 0.2 to
  0.95; with fewer than two scores (the empty list included) it is exactly 0.5.
\<close>

theorem confidence_range:
  "(2 \<le> length scores \<longrightarrow>
      0.2 \<le> calculate_answer_confidence snippets scores \<and>
      calculate_answer_confidence snippets scores \<le> 0.95)
   \<and> (length scores < 2 \<longrightarrow> calculate_answer_confidence snippets scores = 0.5)"
proof (intro conjI impI)
  assume len: "2 \<le> length scores"
  define top where "top = take 5 (sort_key uminus scores)"
  define m where "m = sum_list top / real (length top)"
  define v where "v = sum_list (map (\<lambda>s. (s - m) ^ 2) top) / real (length top)"
  define c where "c = max (1/5) (min (19/20) (max (1/5) m) - min (3/10) (v * 2))"
  have v0: "0 \<le> v"
    unfolding v_def by (intro divide_nonneg_nonneg squares_sum_nonneg) simp
  have c1: "1/5 \<le> c"
    unfolding c_def by simp
  have c2: "c \<le> 19/20"
    unfolding c_def using v0 by (simp add: min_def max_def)
  have eq: "calculate_answer_confidence snippets scores = py_round c 3"
    using len unfolding calculate_answer_confidence_def c_def v_def m_def top_def
    by (auto simp: Let_def)
  from py_round_mono [OF c1, of 3] show "0.2 \<le> calculate_answer_confidence snippets scores"
    unfolding eq by simp
  from py_round_mono [OF c2, of 3] show "calculate_answer_confidence snippets scores \<le> 0.95"
    unfolding eq by simp
next
  assume "length scores < 2"
  then show "calculate_answer_confidence snippets scores = 0.5"
    by (simp add: calculate_answer_confidence_def)
qed

theorem confidence_range_witness:
  "2 \<le> length [5, 0 :: real] \<and>
   0.2 \<le> calculate_answer_confidence [] [5, 0] \<and> calculate_answer_confidence [] [5, 0] \<le> 0.95 \<and>
   length [0.9 :: real] < 2 \<and> calculate_answer_confidence [] [0.9] = 0.5"
  using confidence_range [of "[5, 0]" "[]"] confidence_range [of "[0.9]" "[]"]
  by simp

section \<open>Properties of the ablation\<close>

lemma kept_before_Suc_map: "kept_before (map Suc idxs) (Suc k) = kept_before idxs k"
  by (simp add: kept_before_def filter_map comp_def)

lemma kept_before_Suc_Cons: "kept_before (0 # map Suc idxs) (Suc k) = Suc (kept_before idxs k)"
  by (simp add: kept_before_def filter_map comp_def)

lemma kept_before_0: "kept_before (map Suc idxs) 0 = 0"
  by (simp add: kept_before_def filter_map comp_def)

lemma sorted_wrt_map_Suc: "sorted_wrt (<) idxs \<Longrightarrow> sorted_wrt (<) (map Suc idxs)"
  by (simp add: sorted_wrt_map)

lemma ablation_loop_indices:
  "\<exists>idxs. sorted_wrt (<) idxs \<and> set idxs \<subseteq> {..<length xs} \<and> length idxs \<le> length xs \<and>
     ablation_loop A xs (fs, fsc, rc) =
       (fs @ map (\<lambda>i. fst (xs ! i)) idxs, fsc @ map (\<lambda>i. snd (xs ! i)) idxs,
        rc + (length xs - length idxs)) \<and>
     (\<forall>i<length xs. i \<notin> set idxs \<longleftrightarrow>
        should_remove A (fst (xs ! i)) (length fs + kept_before idxs i))"
proof (induction xs arbitrary: fs fsc rc)
  case Nil
  show ?case
    by (rule exI [of _ "[]"]) simp
next
  case (Cons x xs)
  obtain p s where x: "x = (p, s)"
    by (cases x)
  show ?case
  proof (cases "should_remove A p (length fs)")
    case True
    from Cons.IH [of fs fsc "rc + 1"] obtain idxs where
      srt: "sorted_wrt (<) idxs" and sub: "set idxs \<subseteq> {..<length xs}" and
      len: "length idxs \<le> length xs" and
      res: "ablation_loop A xs (fs, fsc, rc + 1) =
        (fs @ map (\<lambda>i. fst (xs ! i)) idxs, fsc @ map (\<lambda>i. snd (xs ! i)) idxs,
         rc + 1 + (length xs - length idxs))" and
      chr: "\<forall>i<length xs. i \<notin> set idxs \<longleftrightarrow>
        should_remove A (fst (xs ! i)) (length fs + kept_before idxs i)"
      by blast
    have chr': "i \<notin> set (map Suc idxs) \<longleftrightarrow>
        should_remove A (fst ((x # xs) ! i)) (length fs + kept_before (map Suc idxs) i)"
      if "i < length (x # xs)" for i
    proof (cases i)
      case 0
      with True x show ?thesis
        by (auto simp: kept_before_0)
    next
      case (Suc k)
      with that chr show ?thesis
        by (auto simp: kept_before_Suc_map)
    qed
    show ?thesis
    proof (intro exI [of _ "map Suc idxs"] conjI allI impI)
      show "sorted_wrt (<) (map Suc idxs)"
        using srt by (rule sorted_wrt_map_Suc)
      show "set (map Suc idxs) \<subseteq> {..<length (x # xs)}"
        using sub by auto
      show "length (map Suc idxs) \<le> length (x # xs)"
        using len by simp
      show "ablation_loop A (x # xs) (fs, fsc, rc) =
        (fs @ map (\<lambda>i. fst ((x # xs) ! i)) (map Suc idxs),
         fsc @ map (\<lambda>i. snd ((x # xs) ! i)) (map Suc idxs),
         rc + (length (x # xs) - length (map Suc idxs)))"
        using True x res len by (simp add: comp_def Suc_diff_le)
      show "i \<notin> set (map Suc idxs) \<longleftrightarrow>
        should_remove A (fst ((x # xs) ! i)) (length fs + kept_before (map Suc idxs) i)"
        if "i < length (x # xs)" for i
        using that by (rule chr')
    qed
  next
    case False
    from Cons.IH [of "fs @ [p]" "fsc @ [s]" rc] obtain idxs where
      srt: "sorted_wrt (<) idxs" and sub: "set idxs \<subseteq> {..<length xs}" and
      len: "length idxs \<le> length xs" and
      res: "ablation_loop A xs (fs @ [p], fsc @ [s], rc) =
        ((fs @ [p]) @ map (\<lambda>i. fst (xs ! i)) idxs, (fsc @ [s]) @ map (\<lambda>i. snd (xs ! i)) idxs,
         rc + (length xs - length idxs))" and
      chr: "\<forall>i<length xs. i \<notin> set idxs \<longleftrightarrow>
        should_remove A (fst (xs ! i)) (length (fs @ [p]) + kept_before idxs i)"
      by blast
    have chr': "i \<notin> set (0 # map Suc idxs) \<longleftrightarrow>
        should_remove A (fst ((x # xs) ! i)) (length fs + kept_before (0 # map Suc idxs) i)"
      if "i < length (x # xs)" for i
    proof (cases i)
      case 0
      with False x show ?thesis
        by (simp add: kept_before_def)
    next
      case (Suc k)
      with that chr show ?thesis
        by (auto simp: kept_before_Suc_Cons)
    qed
    show ?thesis
    proof (intro exI [of _ "0 # map Suc idxs"] conjI allI impI)
      show "sorted_wrt (<) (0 # map Suc idxs)"
        using srt by (auto simp: sorted_wrt_map)
      show "set (0 # map Suc idxs) \<subseteq> {..<length (x # xs)}"
        using sub by auto
      show "length (0 # map Suc idxs) \<le> length (x # xs)"
        using len by simp
      show "ablation_loop A (x # xs) (fs, fsc, rc) =
        (fs @ map (\<lambda>i. fst ((x # xs) ! i)) (0 # map Suc idxs),
         fsc @ map (\<lambda>i. snd ((x # xs) ! i)) (0 # map Suc idxs),
         rc + (length (x # xs) - length (0 # map Suc idxs)))"
        using False x res by (simp add: comp_def)
      show "i \<notin> set (0 # map Suc idxs) \<longleftrightarrow>
        should_remove A (fst ((x # xs) ! i)) (length fs + kept_before (0 # map Suc idxs) i)"
        if "i < length (x # xs)" for i
        using that by (rule chr')
    qed
  qed
qed

lemma should_remove_iff:
  "should_remove A p k \<longleftrightarrow>
     (\<exists>a\<in>set A. a = snippet_id_of p \<or> a = source_id_of p \<or> a = passage_id_of k)"
  by (auto simp: should_remove_def list_ex_iff)

lemma ablation_loop_removed:
  "ablation_loop A xs (fs, fsc, rc) = (fs', fsc', rc') \<Longrightarrow>
    length fs' + rc' = length fs + rc + length xs"
proof (induction xs arbitrary: fs fsc rc)
  case Nil
  then show ?case by simp
next
  case (Cons x xs)
  obtain p s where x: "x = (p, s)" by (cases x)
  show ?case
  proof (cases "should_remove A p (length fs)")
    case True
    with Cons.prems x have "ablation_loop A xs (fs, fsc, rc + 1) = (fs', fsc', rc')" by simp
    from Cons.IH [OF this] show ?thesis by simp
  next
    case False
    with Cons.prems x have "ablation_loop A xs (fs @ [p], fsc @ [s], rc) = (fs', fsc', rc')" by simp
    from Cons.IH [OF this] show ?thesis by simp
  qed
qed

lemmas ablation_eval =
  apply_ablation_def should_remove_def snippet_id_of_def source_id_of_def passage_id_of_def
  get_or_def counterfactual_note_of_def str_of_nat.simps digit_char_def

text \<open>
  C1, as the source has it: with equally long passage and score lists and a non-empty
  exclusion list, the kept passages and scores are those at one strictly increasing list
  of positions, and a position is dropped if and only if some exclusion identifier is
  string-equal to the passage's id (the empty string when it has none), to its source id
  (its title when it has no source id, the empty string when it has neither), or to the
  positional id \<open>passage_k\<close>, \<open>k\<close> the number of passages kept before it.
\<close>

theorem ablation_removes_exact_matches:
  assumes "length P = length S" and "A \<noteq> []"
  shows "\<exists>idxs. sorted_wrt (<) idxs \<and> set idxs \<subseteq> {..<length P} \<and>
     fst (apply_ablation P S A) = map (\<lambda>i. P ! i) idxs \<and>
     fst (snd (apply_ablation P S A)) = map (\<lambda>i. S ! i) idxs \<and>
     (\<forall>i<length P. i \<notin> set idxs \<longleftrightarrow>
        (\<exists>a\<in>set A. a = snippet_id_of (P ! i) \<or> a = source_id_of (P ! i) \<or>
                     a = passage_id_of (kept_before idxs i)))"
proof -
  from ablation_loop_indices [of "zip P S" A "[]" "[]" 0] obtain idxs where
    srt: "sorted_wrt (<) idxs" and sub: "set idxs \<subseteq> {..<length (zip P S)}" and
    res: "ablation_loop A (zip P S) ([], [], 0) =
      ([] @ map (\<lambda>i. fst (zip P S ! i)) idxs, [] @ map (\<lambda>i. snd (zip P S ! i)) idxs,
       0 + (length (zip P S) - length idxs))" and
    chr: "\<forall>i<length (zip P S). i \<notin> set idxs \<longleftrightarrow>
      should_remove A (fst (zip P S ! i)) (length ([] :: snippet list) + kept_before idxs i)"
    by blast
  from sub assms(1) have in_range: "\<And>i. i \<in> set idxs \<Longrightarrow> i < length P \<and> i < length S"
    by auto
  have fsts: "map (\<lambda>i. fst (zip P S ! i)) idxs = map (\<lambda>i. P ! i) idxs"
    using in_range by (intro map_cong) simp_all
  have snds: "map (\<lambda>i. snd (zip P S ! i)) idxs = map (\<lambda>i. S ! i) idxs"
    using in_range by (intro map_cong) simp_all
  show ?thesis
  proof (intro exI [of _ idxs] conjI allI impI)
    show "sorted_wrt (<) idxs"
      by (rule srt)
    show "set idxs \<subseteq> {..<length P}"
      using sub assms(1) by simp
    show "fst (apply_ablation P S A) = map (\<lambda>i. P ! i) idxs"
      using assms(2) res fsts by (simp add: apply_ablation_def)
    show "fst (snd (apply_ablation P S A)) = map (\<lambda>i. S ! i) idxs"
      using assms(2) res snds by (simp add: apply_ablation_def)
    show "i \<notin> set idxs \<longleftrightarrow>
        (\<exists>a\<in>set A. a = snippet_id_of (P ! i) \<or> a = source_id_of (P ! i) \<or>
                     a = passage_id_of (kept_before idxs i))"
      if "i < length P" for i
      using that chr assms(1) by (simp add: should_remove_iff)
  qed
qed

theorem ablation_removes_exact_matches_witness:
  "length [doc ''doc_1'', doc ''doc_2'', doc ''doc_3''] = length [0.9, 0.8, 0.7 :: real] \<and>
   [''passage_1''] \<noteq> [] \<and>
   (\<exists>idxs. sorted_wrt (<) idxs \<and>
     fst (apply_ablation [doc ''doc_1'', doc ''doc_2'', doc ''doc_3''] [0.9, 0.8, 0.7] [''passage_1''])
       = map (\<lambda>i. [doc ''doc_1'', doc ''doc_2'', doc ''doc_3''] ! i) idxs) \<and>
   apply_ablation [doc ''doc_1'', doc ''doc_2'', doc ''doc_3''] [0.9, 0.8, 0.7] [''passage_1'']
     = ([doc ''doc_1''], [0.9], Some ''Excluded 2 passages based on ablation criteria: passage_1'')"
proof -
  have h1: "length [doc ''doc_1'', doc ''doc_2'', doc ''doc_3''] = length [0.9, 0.8, 0.7 :: real]"
    by simp
  have h2: "[''passage_1''] \<noteq> []"
    by simp
  from ablation_removes_exact_matches [OF h1 h2]
  have "\<exists>idxs. sorted_wrt (<) idxs \<and>
     fst (apply_ablation [doc ''doc_1'', doc ''doc_2'', doc ''doc_3''] [0.9, 0.8, 0.7] [''passage_1''])
       = map (\<lambda>i. [doc ''doc_1'', doc ''doc_2'', doc ''doc_3''] ! i) idxs"
    by blast
  moreover have "apply_ablation [doc ''doc_1'', doc ''doc_2'', doc ''doc_3''] [0.9, 0.8, 0.7] [''passage_1'']
     = ([doc ''doc_1''], [0.9], Some ''Excluded 2 passages based on ablation criteria: passage_1'')"
    by (simp add: ablation_eval doc_def)
  ultimately show ?thesis
    using h1 h2 by blast
qed

text \<open>
  C1 as stated fails: a passage without a source id is dropped when an exclusion
  identifier equals its title, which is none of its id, source id and positional id.
\<close>

theorem ablation_title_counterexample:
  "fst (apply_ablation [titled_doc ''doc_1'' ''Source 1'' ''Content 1''] [0.9] [''Source 1'']) = [] \<and>
   \<not> list_ex (\<lambda>ablate_id. ablate_id \<in> set (spec_identifiers (titled_doc ''doc_1'' ''Source 1'' ''Content 1'') 0))
        [''Source 1'']"
  by (simp add: ablation_eval titled_doc_def spec_identifiers_def)

text \<open>
  C5, as the source has it: with an empty exclusion list the passages and scores come
  back unchanged and the note is the empty string.
\<close>

theorem ablation_empty_is_empty_string:
  "apply_ablation P S [] = (P, S, Some [])"
  by (simp add: apply_ablation_def)

text \<open>C5 as stated fails: the note of the pass-through is the empty string, not \<open>None\<close>.\<close>

theorem ablation_empty_note_counterexample:
  "apply_ablation [titled_doc ''doc_1'' ''Source 1'' ''Content 1''] [0.9] []
     \<noteq> ([titled_doc ''doc_1'' ''Source 1'' ''Content 1''], [0.9], None)"
  by (simp add: apply_ablation_def)

text \<open>
  C6: with a non-empty exclusion list the note is the template filled with the number of
  dropped passages and the exclusion identifiers joined by a comma and a space, also
  when nothing was dropped; excluding \<open>doc_1\<close> and \<open>doc_3\<close> from \<open>doc_1, doc_2, doc_3\<close>
  keeps \<open>doc_2\<close> and gives the note for two excluded passages.
\<close>

theorem ablation_note:
  "(A \<noteq> [] \<longrightarrow>
      snd (snd (apply_ablation P S A)) =
        Some (''Excluded '' @
              str_of_nat (min (length P) (length S) - length (fst (apply_ablation P S A))) @
              '' passages based on ablation criteria: '' @ join '', '' A))
   \<and> apply_ablation [doc ''doc_1'', doc ''doc_2'', doc ''doc_3''] [0.9, 0.8, 0.7] [''doc_1'', ''doc_3'']
       = ([doc ''doc_2''], [0.8],
          Some ''Excluded 2 passages based on ablation criteria: doc_1, doc_3'')"
proof (intro conjI impI)
  assume ne: "A \<noteq> []"
  obtain fs fsc rc where loop: "ablation_loop A (zip P S) ([], [], 0) = (fs, fsc, rc)"
    by (cases "ablation_loop A (zip P S) ([], [], 0)")
  from ablation_loop_removed [OF loop] have "rc = min (length P) (length S) - length fs"
    by simp
  with ne loop show "snd (snd (apply_ablation P S A)) =
        Some (''Excluded '' @
              str_of_nat (min (length P) (length S) - length (fst (apply_ablation P S A))) @
              '' passages based on ablation criteria: '' @ join '', '' A)"
    by (simp add: apply_ablation_def counterfactual_note_of_def)
next
  show "apply_ablation [doc ''doc_1'', doc ''doc_2'', doc ''doc_3''] [0.9, 0.8, 0.7] [''doc_1'', ''doc_3'']
       = ([doc ''doc_2''], [0.8],
          Some ''Excluded 2 passages based on ablation criteria: doc_1, doc_3'')"
    by (simp add: ablation_eval doc_def)
qed

theorem ablation_note_witness:
  "[''doc_9''] \<noteq> [] \<and>
   apply_ablation [doc ''doc_1''] [0.9] [''doc_9'']
     = ([doc ''doc_1''], [0.9], Some ''Excluded 0 passages based on ablation criteria: doc_9'')"
proof -
  have ne: "[''doc_9''] \<noteq> []"
    by simp
  have kept: "fst (apply_ablation [doc ''doc_1''] [0.9] [''doc_9'']) = [doc ''doc_1'']"
    and scores: "fst (snd (apply_ablation [doc ''doc_1''] [0.9] [''doc_9''])) = [0.9]"
    by (simp_all add: ablation_eval doc_def)
  from ablation_note [of "[''doc_9'']" "[doc ''doc_1'']" "[0.9]", THEN conjunct1, THEN mp, OF ne]
  have "snd (snd (apply_ablation [doc ''doc_1''] [0.9] [''doc_9''])) =
      Some ''Excluded 0 passages based on ablation criteria: doc_9''"
    unfolding kept by (simp add: str_of_nat.simps digit_char_def)
  with kept scores ne show ?thesis
    by (metis prod.collapse)
qed

section \<open>Properties of the evidence trail\<close>

lemma py_round_one [simp]: "py_round 1 3 = 1"
  using py_round_of_int [of 1000 3] by simp

lemma py_round_zero [simp]: "py_round 0 n = 0"
  using py_round_of_int [of 0 n] by simp

lemma rank_term_bounds:
  assumes "0 < n"
  shows "0 < max 0.1 ((real n - real i) / real n)" and "max 0.1 ((real n - real i) / real n) \<le> 1"
proof -
  show "0 < max 0.1 ((real n - real i) / real n)"
    by (simp add: less_max_iff_disj)
  from assms have "(real n - real i) / real n \<le> 1"
    by (simp add: divide_le_eq)
  then show "max 0.1 ((real n - real i) / real n) \<le> 1"
    by simp
qed

lemma rank_weight_le_one:
  assumes "0 < n"
  shows "rank_weight n i score \<le> 1"
proof -
  define r where "r = max 0.1 ((real n - real i) / real n)"
  from rank_term_bounds [OF assms, of i] have r: "0 < r" "r \<le> 1"
    unfolding r_def by blast+
  have "r * min 1 score \<le> r * 1"
    using r by (intro mult_left_mono) simp_all
  also have "r * 1 \<le> 1"
    using r by simp
  finally have "r * min 1 score \<le> 1" .
  then show ?thesis
    by (simp add: rank_weight_def r_def)
qed

lemma rank_weight_nonneg:
  assumes "0 < n" and "0 \<le> score"
  shows "0 \<le> rank_weight n i score"
proof -
  define r where "r = max 0.1 ((real n - real i) / real n)"
  from rank_term_bounds(1) [OF assms(1), of i] have "0 < r"
    unfolding r_def .
  with assms(2) have "0 \<le> r * min 1 score"
    by (intro mult_nonneg_nonneg) simp_all
  then show ?thesis
    by (simp add: rank_weight_def r_def)
qed

lemma weight_at_eq: "weight_at n i score = py_round (rank_weight n i score) 3"
  by (simp add: weight_at_def rank_weight_def)

lemma weight_at_le_one:
  assumes "0 < n"
  shows "weight_at n i score \<le> 1"
proof -
  from rank_weight_le_one [OF assms] have "py_round (rank_weight n i score) 3 \<le> py_round 1 3"
    by (rule py_round_mono)
  then show ?thesis
    by (simp add: weight_at_eq)
qed

lemma weight_at_nonneg:
  assumes "0 < n" and "0 \<le> score"
  shows "0 \<le> weight_at n i score"
proof -
  from rank_weight_nonneg [OF assms] have "py_round 0 3 \<le> py_round (rank_weight n i score) 3"
    by (rule py_round_mono)
  then show ?thesis
    by (simp add: weight_at_eq)
qed

lemma evidence_ref_at_eq:
  assumes "0 < n"
  shows "evidence_ref_at n i snippet score =
    (if 0 \<le> weight_at n i score then Inr (ref_record n i snippet score) else Inl ValidationError)"
  using assms weight_at_le_one [OF assms, of i score]
  by (simp add: evidence_ref_at_def EvidenceRef_def in_unit_def ref_record_def weight_at_eq Let_def)

lemma evidence_loop_ok:
  assumes "0 < n" and "\<forall>j<length xs. 0 \<le> weight_at n (i + j) (snd (xs ! j))"
  shows "evidence_loop n i xs trail =
    Inr (trail @ map (\<lambda>j. ref_record n (i + j) (fst (xs ! j)) (snd (xs ! j))) [0..<length xs])"
  using assms(2)
proof (induction xs arbitrary: i trail)
  case Nil
  show ?case by simp
next
  case (Cons x xs)
  obtain p s where x: "x = (p, s)"
    by (cases x)
  from Cons.prems have w0: "0 \<le> weight_at n i s"
    using x by force
  from Cons.prems have rest: "\<forall>j<length xs. 0 \<le> weight_at n (Suc i + j) (snd (xs ! j))"
    by force
  from Cons.IH [OF rest, of "trail @ [ref_record n i p s]"] w0 x assms(1) show ?case
    by (simp add: evidence_ref_at_eq map_upt_Suc del: upt_Suc)
qed

lemma build_evidence_trail_ok:
  assumes "length P = length S" and "\<forall>i<length S. 0 \<le> weight_at (length S) i (S ! i)"
  shows "build_evidence_trail P S =
    Inr (map (\<lambda>i. ref_record (length S) i (P ! i) (S ! i)) [0..<length S])"
proof (cases "S = []")
  case True
  with assms(1) show ?thesis
    by (simp add: build_evidence_trail_def)
next
  case False
  then have n: "0 < length S"
    by simp
  from assms have "\<forall>j<length (zip P S). 0 \<le> weight_at (length S) (0 + j) (snd (zip P S ! j))"
    by simp
  from evidence_loop_ok [OF n this, of "[]"] assms(1) show ?thesis
    by (simp add: build_evidence_trail_def cong: map_cong)
qed

lemma nonneg_scores_weights:
  assumes "\<forall>s\<in>set S. 0 \<le> s"
  shows "\<forall>i<length S. 0 \<le> weight_at (length S) i (S ! i)"
proof (intro allI impI)
  fix i
  assume i: "i < length S"
  then have "0 < length S" and "0 \<le> S ! i"
    using assms by auto
  then show "0 \<le> weight_at (length S) i (S ! i)"
    by (rule weight_at_nonneg)
qed

lemma weight_at_antimono:
  assumes "0 < n" and "i \<le> j" and "0 \<le> t" and "t \<le> s"
  shows "weight_at n j t \<le> weight_at n i s"
proof -
  from assms(1,2) have "(real n - real j) / real n \<le> (real n - real i) / real n"
    by (intro divide_right_mono) simp_all
  then have r: "max 0.1 ((real n - real j) / real n) \<le> max 0.1 ((real n - real i) / real n)"
    by (intro max.mono) simp_all
  have m: "min 1 t \<le> min 1 s"
    using assms(4) by (intro min.mono) simp_all
  have "max 0.1 ((real n - real j) / real n) * min 1 t
      \<le> max 0.1 ((real n - real i) / real n) * min 1 s"
    using r m rank_term_bounds(1) [OF assms(1), of i] assms(3)
    by (intro mult_mono) simp_all
  then have "py_round (max 0.1 ((real n - real j) / real n) * min 1 t) 3
      \<le> py_round (max 0.1 ((real n - real i) / real n) * min 1 s) 3"
    by (rule py_round_mono)
  then show ?thesis
    by (simp add: weight_at_def)
qed

lemmas evidence_eval =
  build_evidence_trail_def evidence_ref_at_def EvidenceRef_def in_unit_def rank_weight_def
  py_round_def round_half_even_def Let_def


text \<open>
  C7: the trail is to have one \<^verbatim>\<open>EvidenceRef\<close> for each passage, in the order of the
  input. For two passages with the similarities \<open>0.5\<close> and \<open>- 0.5\<close> the first
  reference is built, the weight \<open>- 0.25\<close> of the second is refused by the range check
  of \<^verbatim>\<open>EvidenceRef\<close>, and the call raises instead of returning a trail; the empty
  input gives the empty trail.
\<close>

theorem negative_score_aborts_trail:
  "map_sum id (map er_id) (build_evidence_trail [doc ''doc_1''] [0.5]) = Inr [''passage_0''] \<and>
   build_evidence_trail [doc ''doc_1'', doc ''doc_2''] [0.5, - 0.5] = Inl ValidationError \<and>
   build_evidence_trail [] [] = Inr []"
  by (simp add: evidence_eval str_of_nat.simps digit_char_def)

text \<open>
  C8: for a non-empty input of equally many passages and scores, all scores between 0
  and 1 and non-increasing along the ranks, the trail is built, its weights are
  non-increasing along the ranks, and every weight lies between 0 and 1.
\<close>

theorem evidence_weights_monotone:
  assumes "P \<noteq> []" and "length P = length S"
    and "\<forall>s\<in>set S. 0 \<le> s \<and> s \<le> 1"
    and "sorted_wrt (\<lambda>a b. b \<le> a) S"
  shows "\<exists>refs. build_evidence_trail P S = Inr refs \<and> length refs = length P \<and>
     sorted_wrt (\<lambda>a b. b \<le> a) (map er_weight refs) \<and>
     (\<forall>r\<in>set refs. 0 \<le> er_weight r \<and> er_weight r \<le> 1)"
proof -
  from assms(1,2) have n: "0 < length S"
    by auto
  from assms(3) have nonneg: "\<forall>s\<in>set S. 0 \<le> s"
    by blast
  define refs where "refs = map (\<lambda>i. ref_record (length S) i (P ! i) (S ! i)) [0..<length S]"
  from build_evidence_trail_ok [OF assms(2) nonneg_scores_weights [OF nonneg]]
  have ok: "build_evidence_trail P S = Inr refs"
    by (simp add: refs_def)
  have ws: "map er_weight refs = map (\<lambda>i. weight_at (length S) i (S ! i)) [0..<length S]"
    by (simp add: refs_def ref_record_def comp_def)
  have "sorted_wrt (\<lambda>a b. b \<le> a) (map er_weight refs)"
    unfolding ws sorted_wrt_iff_nth_less
  proof (intro allI impI)
    fix i j
    assume ij: "i < j" and "j < length (map (\<lambda>i. weight_at (length S) i (S ! i)) [0..<length S])"
    then have j: "j < length S"
      by simp
    with ij assms(4) have "S ! j \<le> S ! i"
      by (simp add: sorted_wrt_iff_nth_less)
    moreover from j nonneg have "0 \<le> S ! j"
      by simp
    ultimately have "weight_at (length S) j (S ! j) \<le> weight_at (length S) i (S ! i)"
      using n ij by (intro weight_at_antimono) simp_all
    with ij j show "map (\<lambda>i. weight_at (length S) i (S ! i)) [0..<length S] ! j
        \<le> map (\<lambda>i. weight_at (length S) i (S ! i)) [0..<length S] ! i"
      by simp
  qed
  moreover have "\<forall>r\<in>set refs. 0 \<le> er_weight r \<and> er_weight r \<le> 1"
    using nonneg n by (auto simp: refs_def ref_record_def intro: weight_at_nonneg weight_at_le_one)
  moreover have "length refs = length P"
    using assms(2) by (simp add: refs_def)
  ultimately show ?thesis
    using ok by blast
qed

theorem evidence_weights_monotone_witness:
  "[doc ''doc_1'', doc ''doc_2'', doc ''doc_3''] \<noteq> [] \<and>
   length [doc ''doc_1'', doc ''doc_2'', doc ''doc_3''] = length [0.9, 0.8, 0.7 :: real] \<and>
   list_all (\<lambda>s. 0 \<le> s \<and> s \<le> 1) [0.9, 0.8, 0.7 :: real] \<and>
   sorted_wrt (\<lambda>a b. b \<le> a) [0.9, 0.8, 0.7 :: real] \<and>
   (\<exists>refs. build_evidence_trail [doc ''doc_1'', doc ''doc_2'', doc ''doc_3''] [0.9, 0.8, 0.7] = Inr refs \<and>
      length refs = 3 \<and>
      sorted_wrt (\<lambda>a b. b \<le> a) (map er_weight refs) \<and>
      list_all (\<lambda>r. 0 \<le> er_weight r \<and> er_weight r \<le> 1) refs)"
proof -
  have h1: "[doc ''doc_1'', doc ''doc_2'', doc ''doc_3''] \<noteq> []"
    by simp
  have h2: "length [doc ''doc_1'', doc ''doc_2'', doc ''doc_3''] = length [0.9, 0.8, 0.7 :: real]"
    by simp
  have h3: "\<forall>s\<in>set [0.9, 0.8, 0.7 :: real]. 0 \<le> s \<and> s \<le> 1"
    by simp
  have h4: "sorted_wrt (\<lambda>a b. b \<le> a) [0.9, 0.8, 0.7 :: real]"
    by simp
  from evidence_weights_monotone [OF h1 h2 h3 h4] h1 h2 h3 h4 show ?thesis
    by (auto simp: list_all_iff)
qed

section \<open>Properties of the query endpoint\<close>

lemma apply_ablation_kept:
  assumes "length P = length S" and "apply_ablation P S A = (fs, fsc, note)"
  shows "length fs = length fsc \<and> set fsc \<subseteq> set S"
proof (cases "A = []")
  case True
  with assms show ?thesis
    by (auto simp: apply_ablation_def)
next
  case False
  from ablation_loop_indices [of "zip P S" A "[]" "[]" 0] obtain idxs where
    sub: "set idxs \<subseteq> {..<length (zip P S)}" and
    res: "ablation_loop A (zip P S) ([], [], 0) =
      ([] @ map (\<lambda>i. fst (zip P S ! i)) idxs, [] @ map (\<lambda>i. snd (zip P S ! i)) idxs,
       0 + (length (zip P S) - length idxs))"
    by blast
  from False assms(2) res have fs: "fs = map (\<lambda>i. fst (zip P S ! i)) idxs"
    and fsc: "fsc = map (\<lambda>i. snd (zip P S ! i)) idxs"
    by (simp_all add: apply_ablation_def)
  from sub assms(1) have "\<And>i. i \<in> set idxs \<Longrightarrow> snd (zip P S ! i) \<in> set S"
    by auto
  with fs fsc show ?thesis
    by auto
qed

lemma build_evidence_trail_nonneg:
  assumes "length P = length S" and "\<forall>s\<in>set S. 0 \<le> s"
  shows "\<exists>refs. build_evidence_trail P S = Inr refs \<and> map er_similarity refs = map (min 1) S"
proof -
  have "map (\<lambda>i. min 1 (max 0 (S ! i))) [0..<length S] = map (min 1) S"
    using assms(2) by (intro nth_equalityI) (simp_all add: max_def)
  with build_evidence_trail_ok [OF assms(1) nonneg_scores_weights [OF assms(2)]] show ?thesis
    by (simp add: ref_record_def comp_def)
qed

lemma fallback_shape:
  "length (fallback_snippets q) = length fallback_scores" "\<forall>s\<in>set fallback_scores. 0 \<le> s"
  by (simp_all add: fallback_snippets_def fallback_scores_def)

lemma failing_engine_raises:
  "eng_answer failing_engine q opts k = Raised ''MedRAG service error''"
  by (simp add: failing_engine_def)

text \<open>
  C9, as the source has it: when the engine's answer call raises, the request still
  succeeds and the exception is not passed on. The answer is the labelled mock answer
  for the query, and the engine output is replaced by two synthetic passages with the
  scores 0.92 and 0.88, which go through the ablation like any engine output: without
  an ablation (no exclusion list, or evidence tracking disabled) the response carries
  both, otherwise those that the ablation keeps.
\<close>

theorem engine_failure_fallback:
  assumes "eng_answer medrag (rq_query request) (rq_options request) (rq_k request) = Raised e"
  shows "\<exists>response.
     query_medrag PROOFPATH_ENABLED (Some medrag) timing request = Inr response \<and>
     qr_answer response = fallback_answer (rq_query request) \<and>
     (if ablate_given request \<and> PROOFPATH_ENABLED
      then qr_contexts response =
             map context_of (fst (apply_ablation (fallback_snippets (rq_query request))
                                    fallback_scores (get_or (rq_ablate request) [])))
      else qr_contexts response = map context_of (fallback_snippets (rq_query request)) \<and>
           length (qr_contexts response) = 2 \<and>
           qr_counterfactual_note response = None \<and>
           (PROOFPATH_ENABLED \<longrightarrow>
              map_option (map er_similarity) (qr_evidence_trail response) = Some [0.92, 0.88]))"
proof -
  let ?q = "rq_query request"
  have norm: "normalize_result ?q (eng_answer medrag ?q (rq_options request) (rq_k request))
      = (fallback_answer ?q, fallback_snippets ?q, fallback_scores)"
    by (simp add: assms normalize_result_def)
  show ?thesis
  proof (cases "ablate_given request \<and> PROOFPATH_ENABLED")
    case True
    obtain fs fsc cf_note where abl:
      "apply_ablation (fallback_snippets ?q) fallback_scores (get_or (rq_ablate request) [])
        = (fs, fsc, cf_note)"
      by (cases "apply_ablation (fallback_snippets ?q) fallback_scores (get_or (rq_ablate request) [])")
    from apply_ablation_kept [OF fallback_shape(1) abl] fallback_shape(2)
    have "length fs = length fsc" and "\<forall>s\<in>set fsc. 0 \<le> s"
      by auto
    from build_evidence_trail_nonneg [OF this] obtain refs where
      "build_evidence_trail fs fsc = Inr refs"
      by blast
    with True norm abl show ?thesis
      by (simp add: query_medrag_def Let_def)
  next
    case False
    from build_evidence_trail_nonneg [OF fallback_shape, of ?q] obtain refs where
      refs: "build_evidence_trail (fallback_snippets ?q) fallback_scores = Inr refs"
        "map er_similarity refs = map (min 1) fallback_scores"
      by blast
    have len: "length (fallback_snippets ?q) = 2"
      by (simp add: fallback_snippets_def)
    have "map (min 1) fallback_scores = [0.92, 0.88]"
      by (simp add: fallback_scores_def)
    with False norm refs len show ?thesis
      by (auto simp: query_medrag_def Let_def)
  qed
qed

theorem engine_failure_fallback_witness:
  "eng_answer failing_engine (rq_query plain_request) (rq_options plain_request) (rq_k plain_request)
     = Raised ''MedRAG service error'' \<and>
   (\<exists>response. query_medrag True (Some failing_engine) no_time plain_request = Inr response \<and>
      qr_answer response = fallback_answer ''Test query'' \<and>
      map cx_source (qr_contexts response) = [''test_textbook_001'', ''test_manual_002''] \<and>
      map_option (map er_similarity) (qr_evidence_trail response) = Some [0.92, 0.88])"
proof -
  have h: "eng_answer failing_engine (rq_query plain_request) (rq_options plain_request)
      (rq_k plain_request) = Raised ''MedRAG service error''"
    by (rule failing_engine_raises)
  have na: "\<not> ablate_given plain_request"
    by (simp add: ablate_given_def plain_request_def)
  have q: "rq_query plain_request = ''Test query''"
    by (simp add: plain_request_def)
  have src: "map cx_source (map context_of (fallback_snippets ''Test query''))
      = [''test_textbook_001'', ''test_manual_002'']"
    by (simp add: fallback_snippets_def context_of_def get_or_def)
  from engine_failure_fallback [OF h, of True no_time] na q src h show ?thesis
    by auto
qed

text \<open>
  C9 as stated fails: with evidence tracking enabled and the exclusion identifier
  \<open>passage_0\<close>, both synthetic passages are dropped, each one being at position 0 when
  it is examined, and the response carries no passage.
\<close>

theorem ablated_fallback_counterexample:
  "map_sum id qr_contexts (query_medrag True (Some failing_engine) no_time ablating_request) = Inr []"
  by (simp add: query_medrag_def failing_engine_def ablating_request_def normalize_result_def
      fallback_snippets_def fallback_scores_def ablate_given_def get_or_def Let_def
      ablation_eval build_evidence_trail_def)

end
